theory Spec2Isabelle
  imports Main "HOL-Library.Sublist"
begin

section \<open>Python strings\<close>

text \<open>
  The extractor of \<^verbatim>\<open>phish-ml/feature_extraction.py\<close> works on Python \<^verbatim>\<open>str\<close> values.
  A \<^verbatim>\<open>str\<close> is modelled as a \<^typ>\<open>string\<close>, whose characters are read as the code
  points 0 to 255 (Latin-1): \<^verbatim>\<open>len\<close> is \<^const>\<open>length\<close>, a slice is \<^const>\<open>take\<close> and
  \<^const>\<open>drop\<close>. Code points above 255 are outside the model.
  A leading underscore of a Python name is dropped, as an Isabelle name cannot begin
  with one.
\<close>

datatype error = ValueError

text \<open>\<^verbatim>\<open>c.lower()\<close>: A to Z and the Latin-1 capitals 0xC0 to 0xDE (but the
  multiplication sign 0xD7) move up by 32.\<close>

definition lower_char :: "char \<Rightarrow> char" where
  "lower_char c =
     (let n = (of_char c :: nat)
      in if (65 \<le> n \<and> n \<le> 90) \<or> (192 \<le> n \<and> n \<le> 222 \<and> n \<noteq> 215)
         then char_of (n + 32) else c)"

definition lower :: "string \<Rightarrow> string" where
  "lower s = map lower_char s"

text \<open>\<^verbatim>\<open>c.isdigit()\<close>: the ten ASCII digits and the superscripts two, three and one
  (0xB2, 0xB3, 0xB9).\<close>

definition isdigit :: "char \<Rightarrow> bool" where
  "isdigit c =
     (let n = (of_char c :: nat)
      in (48 \<le> n \<and> n \<le> 57) \<or> n = 178 \<or> n = 179 \<or> n = 185)"

text \<open>\<^verbatim>\<open>c.isascii() and c.isalpha()\<close>.\<close>

definition isascii_alpha :: "char \<Rightarrow> bool" where
  "isascii_alpha c =
     (let n = (of_char c :: nat)
      in (65 \<le> n \<and> n \<le> 90) \<or> (97 \<le> n \<and> n \<le> 122))"

text \<open>\<^verbatim>\<open>sub in s\<close>: \<open>sub\<close> occurs in \<open>s\<close> as a contiguous run.\<close>

fun str_in :: "string \<Rightarrow> string \<Rightarrow> bool" where
  "str_in sub [] = (sub = [])"
| "str_in sub (c # cs) = (prefix sub (c # cs) \<or> str_in sub cs)"

text \<open>\<^verbatim>\<open>s.endswith(suf)\<close>.\<close>

definition endswith :: "string \<Rightarrow> string \<Rightarrow> bool" where
  "endswith s suf = (length suf \<le> length s \<and> drop (length s - length suf) s = suf)"

text \<open>\<^verbatim>\<open>s.replace(old, new)\<close> for a non-empty \<open>old\<close> (every call of the program passes a
  non-empty literal): the occurrences of \<open>old\<close> are found from the left, without
  overlap, and \<^emph>\<open>all\<close> of them are replaced.\<close>

fun str_replace :: "string \<Rightarrow> string \<Rightarrow> string \<Rightarrow> string" where
  "str_replace old new [] = []"
| "str_replace old new (c # cs) =
     (if old \<noteq> [] \<and> prefix old (c # cs)
      then new @ str_replace old new (drop (length old - 1) cs)
      else c # str_replace old new cs)"

text \<open>\<^verbatim>\<open>s.split(sep)\<close>: the pieces between the occurrences of \<open>sep\<close>, found from the
  left without overlap; an empty separator raises \<^verbatim>\<open>ValueError\<close>.\<close>

fun split_pieces :: "string \<Rightarrow> string \<Rightarrow> string list" where
  "split_pieces sep [] = [[]]"
| "split_pieces sep (c # cs) =
     (if sep \<noteq> [] \<and> prefix sep (c # cs)
      then [] # split_pieces sep (drop (length sep - 1) cs)
      else (case split_pieces sep cs of
              w # ws \<Rightarrow> (c # w) # ws
            | [] \<Rightarrow> [[c]]))"

definition str_split :: "string \<Rightarrow> string \<Rightarrow> error + string list" where
  "str_split s sep = (if sep = [] then Inl ValueError else Inr (split_pieces sep s))"

text \<open>\<^verbatim>\<open>s.find(c, start)\<close> for a one-character \<open>c\<close>: the index of its first occurrence at
  or after \<open>start\<close>, or -1.\<close>

definition str_find :: "string \<Rightarrow> char \<Rightarrow> nat \<Rightarrow> int" where
  "str_find s c start =
     (let r = drop start s
      in if c \<in> set r then int (start + length (takeWhile (\<lambda>x. x \<noteq> c) r)) else - 1)"

text \<open>\<^verbatim>\<open>s.rfind(c)\<close>: the index of the last occurrence, or -1.\<close>

definition str_rfind :: "string \<Rightarrow> char \<Rightarrow> int" where
  "str_rfind s c =
     (if c \<in> set s then int (length s - 1 - length (takeWhile (\<lambda>x. x \<noteq> c) (rev s))) else - 1)"

text \<open>The slices \<^verbatim>\<open>s[:i]\<close> and \<^verbatim>\<open>s[i:]\<close>; a negative index counts from the end.\<close>

definition slice_to :: "string \<Rightarrow> int \<Rightarrow> string" where
  "slice_to s i = (if i < 0 then take (length s - nat (- i)) s else take (nat i) s)"

definition slice_from :: "string \<Rightarrow> int \<Rightarrow> string" where
  "slice_from s i = (if i < 0 then drop (length s - nat (- i)) s else drop (nat i) s)"

section \<open>Regular expressions\<close>

text \<open>
  The patterns of the program use literals, character classes, alternation, grouping and
  counted repetition only, so whether \<^verbatim>\<open>re.match\<close> or \<^verbatim>\<open>re.search\<close> finds a match is a
  question of regular languages. A pattern is a value of \<open>rexp\<close>; matching is by
  derivatives.
\<close>

datatype rexp =
    Zero
  | One
  | Cls "char list"
  | Alt rexp rexp
  | Seq rexp rexp
  | Star rexp

fun nullable :: "rexp \<Rightarrow> bool" where
  "nullable Zero = False"
| "nullable One = True"
| "nullable (Cls cs) = False"
| "nullable (Alt r s) = (nullable r \<or> nullable s)"
| "nullable (Seq r s) = (nullable r \<and> nullable s)"
| "nullable (Star r) = True"

fun deriv :: "char \<Rightarrow> rexp \<Rightarrow> rexp" where
  "deriv c Zero = Zero"
| "deriv c One = Zero"
| "deriv c (Cls cs) = (if c \<in> set cs then One else Zero)"
| "deriv c (Alt r s) = Alt (deriv c r) (deriv c s)"
| "deriv c (Seq r s) =
     (if nullable r then Alt (Seq (deriv c r) s) (deriv c s) else Seq (deriv c r) s)"
| "deriv c (Star r) = Seq (deriv c r) (Star r)"

text \<open>The whole string matches the pattern.\<close>

fun matches :: "rexp \<Rightarrow> string \<Rightarrow> bool" where
  "matches r [] = nullable r"
| "matches r (c # cs) = matches (deriv c r) cs"

text \<open>\<^verbatim>\<open>re.match(r, s)\<close>, as a truth value: some prefix of \<open>s\<close> matches.\<close>

fun re_match :: "rexp \<Rightarrow> string \<Rightarrow> bool" where
  "re_match r [] = nullable r"
| "re_match r (c # cs) = (nullable r \<or> re_match (deriv c r) cs)"

text \<open>\<^verbatim>\<open>re.search(r, s)\<close>, as a truth value: a match starts somewhere in \<open>s\<close>.\<close>

fun re_search :: "rexp \<Rightarrow> string \<Rightarrow> bool" where
  "re_search r [] = nullable r"
| "re_search r (c # cs) = (re_match r (c # cs) \<or> re_search r cs)"

text \<open>The pattern constructors.\<close>

fun lit :: "string \<Rightarrow> rexp" where
  "lit [] = One"
| "lit (c # cs) = Seq (Cls [c]) (lit cs)"

fun rep :: "nat \<Rightarrow> rexp \<Rightarrow> rexp" where
  "rep 0 r = One"
| "rep (Suc n) r = Seq r (rep n r)"

text \<open>\<^verbatim>\<open>r{0,n}\<close>, \<^verbatim>\<open>r{m,n}\<close>, \<^verbatim>\<open>r+\<close>, \<^verbatim>\<open>r{m,}\<close> and the alternation of a list.\<close>

fun upto_rep :: "nat \<Rightarrow> rexp \<Rightarrow> rexp" where
  "upto_rep 0 r = One"
| "upto_rep (Suc n) r = Alt One (Seq r (upto_rep n r))"

definition rep_range :: "nat \<Rightarrow> nat \<Rightarrow> rexp \<Rightarrow> rexp" where
  "rep_range m n r = Seq (rep m r) (upto_rep (n - m) r)"

definition plus :: "rexp \<Rightarrow> rexp" where
  "plus r = Seq r (Star r)"

definition at_least :: "nat \<Rightarrow> rexp \<Rightarrow> rexp" where
  "at_least m r = Seq (rep m r) (Star r)"

fun alts :: "rexp list \<Rightarrow> rexp" where
  "alts [] = Zero"
| "alts [r] = r"
| "alts (r # rs) = Alt r (alts rs)"

text \<open>\<^verbatim>\<open>\d\<close> on Latin-1 text is the ten ASCII digits (the superscripts are not decimal
  digits).\<close>

definition digit :: rexp where
  "digit = Cls ''0123456789''"

definition a_to_z :: rexp where
  "a_to_z = Cls ''abcdefghijklmnopqrstuvwxyz''"

text \<open>\<^verbatim>\<open>re.IGNORECASE\<close>: a class also accepts the other case of its letters. The
  patterns hold ASCII characters only, whose other case within Latin-1 is the ASCII
  one.\<close>

definition swap_case :: "char \<Rightarrow> char" where
  "swap_case c =
     (let n = (of_char c :: nat)
      in if 65 \<le> n \<and> n \<le> 90 then char_of (n + 32)
         else if 97 \<le> n \<and> n \<le> 122 then char_of (n - 32) else c)"

fun ignorecase :: "rexp \<Rightarrow> rexp" where
  "ignorecase Zero = Zero"
| "ignorecase One = One"
| "ignorecase (Cls cs) = Cls (cs @ map swap_case cs)"
| "ignorecase (Alt r s) = Alt (ignorecase r) (ignorecase s)"
| "ignorecase (Seq r s) = Seq (ignorecase r) (ignorecase s)"
| "ignorecase (Star r) = Star (ignorecase r)"

section \<open>The domain registry\<close>

text \<open>The tables that \<^verbatim>\<open>URLFeatureExtractor.__init__\<close> sets. The two Python sets are
  lists here; the program only asks for membership and for the existence of a matching
  entry, so the order does not matter.\<close>

definition suspicious_tlds :: "string list" where
  "suspicious_tlds = [''.tk'', ''.ml'', ''.ga'', ''.cf'', ''.gq'', ''.loan'', ''.win'', ''.bid'']"

definition brand_keywords :: "string list" where
  "brand_keywords = [''paypal'', ''amazon'', ''microsoft'', ''google'', ''apple'',
     ''facebook'', ''netflix'', ''whatsapp'', ''instagram'']"

definition legitimate_domains :: "string list" where
  "legitimate_domains = [
     ''google.com'', ''youtube.com'', ''gmail.com'', ''gstatic.com'', ''googleapis.com'',
     ''microsoft.com'', ''live.com'', ''outlook.com'', ''office.com'', ''azure.com'',
     ''apple.com'', ''icloud.com'', ''apple.co'',
     ''amazon.com'', ''amazonaws.com'', ''aws.amazon.com'',
     ''facebook.com'', ''fb.com'', ''fbcdn.net'',
     ''twitter.com'', ''x.com'', ''t.co'',
     ''linkedin.com'',
     ''instagram.com'',
     ''netflix.com'',
     ''paypal.com'',
     ''stripe.com'',
     ''whatsapp.com'', ''wa.me'',
     ''slack.com'',
     ''zoom.us'',
     ''discord.com'',
     ''telegram.org'',
     ''github.com'', ''gitlab.com'', ''bitbucket.org'',
     ''stackoverflow.com'', ''stackexchange.com'',
     ''openai.com'', ''chatgpt.com'', ''chat.openai.com'', ''platform.openai.com'',
     ''api.openai.com'', ''auth0.openai.com'', ''cdn.openai.com'',
     ''anthropic.com'', ''claude.ai'', ''console.anthropic.com'',
     ''npmjs.com'', ''pypi.org'',
     ''cursor.sh'', ''cursor.com'',
     ''geeksforgeeks.org'',
     ''w3schools.com'',
     ''tutorialspoint.com'',
     ''javatpoint.com'',
     ''programiz.com'',
     ''codecademy.com'',
     ''freecodecamp.org'',
     ''udemy.com'',
     ''coursera.org'',
     ''khanacademy.org'',
     ''edx.org'',
     ''leetcode.com'',
     ''hackerrank.com'',
     ''datacamp.com'',
     ''etlab.app'',
     ''reddit.com'', ''redd.it'',
     ''wikipedia.org'', ''wikimedia.org'',
     ''medium.com'',
     ''tumblr.com'',
     ''pinterest.com'',
     ''tiktok.com'',
     ''dropbox.com'',
     ''adobe.com'',
     ''cloudflare.com'',
     ''godaddy.com'',
     ''wordpress.com'', ''wordpress.org'',
     ''blogger.com'',
     ''notion.so'',
     ''figma.com'',
     ''canva.com'',
     ''wise.com'', ''transferwise.com'',
     ''revolut.com'',
     ''xe.com'', ''oanda.com'',
     ''payoneer.com'',
     ''kaggle.com'',
     ''ftc.gov'', ''consumer.ftc.gov'',
     ''nih.gov'', ''cdc.gov'', ''irs.gov'', ''ssa.gov'',
     ''usa.gov'', ''whitehouse.gov'', ''nasa.gov'']"

definition url_shorteners :: "string list" where
  "url_shorteners = [''bit.ly'', ''tinyurl.com'', ''goo.gl'', ''t.co'', ''ow.ly'',
     ''short.link'', ''is.gd'', ''v.gd'', ''cutt.ly'', ''shorturl.at'']"

section \<open>The detectors\<close>

text \<open>\<^verbatim>\<open>_has_ip_address\<close>: \<^verbatim>\<open>re.match(r"^(?:\d{1,3}\.){3}\d{1,3}$", hostname)\<close>. The
  \<^verbatim>\<open>$\<close> of Python matches at the end of the string and also just before a newline
  that ends it, so the pattern is followed by an optional newline and the whole host
  has to match.\<close>

definition ip_pattern :: rexp where
  "ip_pattern =
     Seq (rep 3 (Seq (rep_range 1 3 digit) (Cls ''.'')))
       (Seq (rep_range 1 3 digit) (Alt One (Cls [CHR 0x0A])))"

definition has_ip_address :: "string \<Rightarrow> int" where
  "has_ip_address hostname = (if matches ip_pattern hostname then 1 else 0)"

text \<open>\<^verbatim>\<open>_is_legitimate_domain\<close>.\<close>

definition is_legitimate_domain :: "string \<Rightarrow> int" where
  "is_legitimate_domain hostname =
     (let hostname_clean = str_replace ''www.'' [] hostname
      in if hostname_clean \<in> set legitimate_domains then 1
         else if list_ex (\<lambda>domain. hostname_clean = domain
                            \<or> endswith hostname_clean (''.'' @ domain)) legitimate_domains
         then 1
         else 0)"

text \<open>\<^verbatim>\<open>_detect_suspicious_tld\<close>.\<close>

definition detect_suspicious_tld :: "string \<Rightarrow> int" where
  "detect_suspicious_tld hostname =
     (if list_ex (\<lambda>tld. endswith hostname tld) suspicious_tlds then 1 else 0)"

text \<open>\<^verbatim>\<open>_detect_brand_spoofing\<close>. The dictionary of each brand's own domains is an
  association list; the loop over the brands is \<open>brand_loop\<close>, which returns 1 at the
  first brand that is flagged and goes on to the next brand otherwise. The
  \<^verbatim>\<open>full_url\<close> argument is never read by the Python.\<close>

definition legitimate_brand_domains :: "(string \<times> string list) list" where
  "legitimate_brand_domains = [
     (''paypal'', [''paypal.com'']),
     (''amazon'', [''amazon.com'', ''amazonaws.com'']),
     (''microsoft'', [''microsoft.com'', ''live.com'', ''outlook.com'', ''office.com'']),
     (''google'', [''google.com'', ''gmail.com'', ''youtube.com'', ''googleapis.com'']),
     (''apple'', [''apple.com'', ''icloud.com'']),
     (''facebook'', [''facebook.com'', ''fb.com'']),
     (''netflix'', [''netflix.com'']),
     (''whatsapp'', [''whatsapp.com'', ''wa.me'']),
     (''instagram'', [''instagram.com''])]"

definition suspicious_indicators :: "string \<Rightarrow> string list" where
  "suspicious_indicators brand =
     [''-'' @ brand, brand @ ''-'', brand @ ''security'', brand @ ''verify'',
      brand @ ''suspended'', brand @ ''alert'']"

fun brand_loop :: "string list \<Rightarrow> string \<Rightarrow> int" where
  "brand_loop [] hostname = 0"
| "brand_loop (brand # rest) hostname =
     (if str_in brand hostname then
        (case map_of legitimate_brand_domains brand of
           Some domains \<Rightarrow>
             (let is_legitimate =
                    list_ex (\<lambda>legit_domain. hostname = legit_domain
                               \<or> endswith hostname (''.'' @ legit_domain)) domains
              in if \<not> is_legitimate then
                   (if list_ex (\<lambda>indicator. str_in indicator hostname)
                         (suspicious_indicators brand) then 1
                    else if detect_suspicious_tld hostname \<noteq> 0 then 1
                    else brand_loop rest hostname)
                 else brand_loop rest hostname)
         | None \<Rightarrow> brand_loop rest hostname)
      else brand_loop rest hostname)"

definition detect_brand_spoofing :: "string \<Rightarrow> string \<Rightarrow> int" where
  "detect_brand_spoofing hostname full_url =
     (if is_legitimate_domain hostname \<noteq> 0 then 0
      else brand_loop brand_keywords hostname)"

text \<open>\<^verbatim>\<open>_detect_character_substitution\<close>. The first pattern is
  \<^verbatim>\<open>^(web|app|mail|cdn|api|server|host|node)\d+\.\<close>, the others are searched in the
  last label but one of the host, ignoring case.\<close>

definition numeric_prefix_pattern :: rexp where
  "numeric_prefix_pattern =
     Seq (alts (map lit [''web'', ''app'', ''mail'', ''cdn'', ''api'', ''server'', ''host'', ''node'']))
       (Seq (plus digit) (Cls ''.''))"

definition suspicious_patterns :: "rexp list" where
  "suspicious_patterns = [
     Seq (lit ''p'') (Seq (Cls ''a4@'') (Seq (lit ''yp'') (Seq (Cls ''a4@'') (lit ''l'')))),
     Seq (lit ''g'') (Seq (rep 2 (Cls ''o0@'')) (lit ''gle'')),
     Seq (lit ''micr'') (Seq (Cls ''o0'') (Seq (lit ''s'') (Seq (Cls ''o0'') (lit ''ft'')))),
     Seq (plus a_to_z) (Seq (at_least 2 (Cls ''0'')) (plus a_to_z)),
     Seq (plus a_to_z) (Seq (at_least 2 (Cls ''4'')) (plus a_to_z)),
     Seq (lit ''fac'') (Seq (Cls ''e3'') (Seq (lit ''b'') (Seq (rep 2 (Cls ''o0'')) (lit ''k'')))),
     Seq (lit ''n'') (Seq (Cls ''e3'') (Seq (lit ''tfl'') (Seq (Cls ''i1'') (lit ''x''))))]"

definition detect_character_substitution :: "string \<Rightarrow> int" where
  "detect_character_substitution hostname =
     (if is_legitimate_domain hostname \<noteq> 0 then 0
      else if re_match numeric_prefix_pattern hostname then 0
      else
        (let domain_parts = split_pieces ''.'' hostname
         in if length domain_parts < 2 then 0
            else
              (let main_domain = domain_parts ! (length domain_parts - 2)
               in if list_ex (\<lambda>pattern. re_search (ignorecase pattern) main_domain)
                       suspicious_patterns
                  then 1 else 0)))"

text \<open>\<^verbatim>\<open>_detect_suspicious_keywords\<close>. The text called \<^verbatim>\<open>path\<close> is what follows the last
  occurrence of the host in the lower-cased URL, \<^verbatim>\<open>full_url.split(hostname)[-1]\<close>, and
  is empty when the host does not occur there. Splitting at an empty host raises.\<close>

definition domain_suspicious_keywords :: "string list" where
  "domain_suspicious_keywords = [''verify'', ''suspended'', ''locked'', ''urgent'', ''alert'',
     ''warning'', ''confirm'', ''validate'', ''fake'', ''deal'']"

definition path_suspicious_keywords :: "string list" where
  "path_suspicious_keywords = [''suspend'', ''locked'', ''urgent'', ''immediate'']"

definition detect_suspicious_keywords :: "string \<Rightarrow> string \<Rightarrow> error + int" where
  "detect_suspicious_keywords full_url hostname =
     (if is_legitimate_domain hostname \<noteq> 0 then Inr 0
      else if list_ex (\<lambda>keyword. str_in keyword hostname) domain_suspicious_keywords
      then Inr 1
      else
        (case (if str_in hostname full_url
               then map_sum id last (str_split full_url hostname)
               else Inr [])
         of
           Inl e \<Rightarrow> Inl e
         | Inr path \<Rightarrow>
             (let keyword_in_path =
                    list_ex (\<lambda>keyword. str_in keyword path) path_suspicious_keywords
              in if keyword_in_path
                    \<and> (detect_suspicious_tld hostname \<noteq> 0
                       \<or> has_ip_address hostname \<noteq> 0
                       \<or> str_in ''@'' full_url)
                 then Inr 1 else Inr 0)))"

text \<open>\<^verbatim>\<open>_is_url_shortener\<close> and \<^verbatim>\<open>_has_excessive_subdomains\<close>.\<close>

definition is_url_shortener :: "string \<Rightarrow> int" where
  "is_url_shortener hostname =
     (let hostname_clean = str_replace ''www.'' [] hostname
      in if hostname_clean \<in> set url_shorteners then 1 else 0)"

definition has_excessive_subdomains :: "string \<Rightarrow> int" where
  "has_excessive_subdomains hostname =
     (let parts = split_pieces ''.'' hostname
      in if length parts > 5 then 1 else 0)"

text \<open>\<^verbatim>\<open>_detect_suspicious_keyword_combinations\<close>.\<close>

definition brand_action_combos :: "(string \<times> string) list" where
  "brand_action_combos = [
     (''paypal'', ''verify''),
     (''paypal'', ''security''),
     (''paypal'', ''suspended''),
     (''amazon'', ''verify''),
     (''amazon'', ''suspended''),
     (''amazon'', ''update''),
     (''microsoft'', ''security''),
     (''microsoft'', ''verify''),
     (''google'', ''verify''),
     (''google'', ''suspended''),
     (''apple'', ''verify''),
     (''whatsapp'', ''verify''),
     (''whatsapp'', ''suspended''),
     (''whatsapp'', ''banned''),
     (''account'', ''suspended''),
     (''account'', ''locked''),
     (''security'', ''alert''),
     (''urgent'', ''verify''),
     (''confirm'', ''identity'')]"

definition detect_suspicious_keyword_combinations :: "string \<Rightarrow> string \<Rightarrow> int" where
  "detect_suspicious_keyword_combinations full_url hostname =
     (if is_legitimate_domain hostname \<noteq> 0 then 0
      else if list_ex (\<lambda>(brand, action). str_in brand full_url \<and> str_in action full_url)
                brand_action_combos
      then 1 else 0)"

section \<open>The URL parser\<close>

text \<open>
  \<^verbatim>\<open>urlparse\<close> is the standard library's \<^verbatim>\<open>urllib.parse.urlparse\<close>; the model follows
  CPython 3.11 (\<^verbatim>\<open>urlsplit\<close>, \<^verbatim>\<open>_splitnetloc\<close>, \<^verbatim>\<open>_splitparams\<close>). Two of its checks
  lie outside the text it splits:
  \<^item> \<^verbatim>\<open>_check_bracketed_host\<close> hands the text between \<^verbatim>\<open>[\<close> and \<^verbatim>\<open>]\<close> to the
    \<^verbatim>\<open>ipaddress\<close> module and raises \<^verbatim>\<open>ValueError\<close> when that rejects it. The check is
    the parameter \<open>bracketed_host_ok\<close> of the model, and every theorem holds for
    every such check.
  \<^item> \<^verbatim>\<open>_checknetloc\<close> raises when the NFKC form of a non-ASCII authority holds one of
    \<^verbatim>\<open>/?#@:\<close>; no Latin-1 character has such a form, so the check never raises on the
    strings of the model.
\<close>

definition uses_params :: "string list" where
  "uses_params = ['''', ''ftp'', ''hdl'', ''prospero'', ''http'', ''imap'',
     ''https'', ''shttp'', ''rtsp'', ''rtsps'', ''rtspu'', ''sip'',
     ''sips'', ''mms'', ''sftp'', ''tel'']"

definition scheme_chars :: string where
  "scheme_chars = ''abcdefghijklmnopqrstuvwxyz'' @ ''ABCDEFGHIJKLMNOPQRSTUVWXYZ''
     @ ''0123456789'' @ ''+-.''"

text \<open>The characters 0x00 to 0x20, stripped from the left of the URL, and the three
  characters (tab, carriage return, newline) removed from all of it.\<close>

definition whatwg_c0_control_or_space :: "char \<Rightarrow> bool" where
  "whatwg_c0_control_or_space c = ((of_char c :: nat) \<le> 32)"

definition unsafe_url_bytes_to_remove :: "string list" where
  "unsafe_url_bytes_to_remove = [[CHR 0x09], [CHR 0x0D], [CHR 0x0A]]"

text \<open>\<^verbatim>\<open>_splitnetloc(url, start)\<close>: the authority ends at the first of \<^verbatim>\<open>/?#\<close>.\<close>

definition splitnetloc :: "string \<Rightarrow> nat \<Rightarrow> string \<times> string" where
  "splitnetloc url start =
     (let delim = foldl (\<lambda>delim c.
                     (let wdelim = str_find url c start
                      in if wdelim \<ge> 0 then min delim wdelim else delim))
                   (int (length url)) ''/?#''
      in (slice_from (slice_to url delim) (int start), slice_from url delim))"

text \<open>\<^verbatim>\<open>_splitparams(url)\<close>.\<close>

definition splitparams :: "string \<Rightarrow> string \<times> string" where
  "splitparams url =
     (if str_in ''/'' url then
        (let i = str_find url CHR '';'' (nat (str_rfind url CHR ''/''))
         in if i < 0 then (url, []) else (slice_to url i, slice_from url (i + 1)))
      else
        (let i = str_find url CHR '';'' 0
         in (slice_to url i, slice_from url (i + 1))))"

text \<open>\<^verbatim>\<open>s.split(c, 1)\<close> for a character that occurs in \<open>s\<close>: the text before its first
  occurrence and the text after it.\<close>

definition split_once :: "string \<Rightarrow> char \<Rightarrow> string \<times> string" where
  "split_once s c = (takeWhile (\<lambda>x. x \<noteq> c) s, drop 1 (dropWhile (\<lambda>x. x \<noteq> c) s))"

text \<open>\<^verbatim>\<open>netloc.partition('[')[2].partition(']')[0]\<close>.\<close>

definition bracketed_host :: "string \<Rightarrow> string" where
  "bracketed_host netloc =
     takeWhile (\<lambda>x. x \<noteq> CHR '']'') (drop 1 (dropWhile (\<lambda>x. x \<noteq> CHR ''['') netloc))"

text \<open>The end of \<^verbatim>\<open>urlsplit\<close>: the fragment and then the query are cut off what is left
  after the authority. The result is (scheme, netloc, path, query, fragment).\<close>

definition split_tail ::
  "string \<Rightarrow> string \<Rightarrow> string \<Rightarrow> string \<times> string \<times> string \<times> string \<times> string" where
  "split_tail scheme netloc url =
     (let (url1, fragment) =
            (if str_in ''#'' url then split_once url CHR ''#'' else (url, []));
          (url2, query) =
            (if str_in ''?'' url1 then split_once url1 CHR ''?'' else (url1, []))
      in (scheme, netloc, url2, query, fragment))"

definition urlsplit ::
  "(string \<Rightarrow> bool) \<Rightarrow> string
     \<Rightarrow> error + (string \<times> string \<times> string \<times> string \<times> string)" where
  "urlsplit bracketed_host_ok url0 =
     (let url1 = dropWhile whatwg_c0_control_or_space url0;
          url2 = foldl (\<lambda>u b. str_replace b [] u) url1 unsafe_url_bytes_to_remove;
          i = str_find url2 CHR '':'' 0;
          (scheme, url) =
            (if i > 0 \<and> isascii_alpha (hd url2)
                \<and> list_all (\<lambda>c. c \<in> set scheme_chars) (slice_to url2 i)
             then (lower (slice_to url2 i), slice_from url2 (i + 1))
             else ([], url2))
      in if take 2 url = ''//'' then
           (let (netloc, rest) = splitnetloc url 2
            in if (str_in ''['' netloc \<and> \<not> str_in '']'' netloc)
                  \<or> (str_in '']'' netloc \<and> \<not> str_in ''['' netloc)
               then Inl ValueError
               else if str_in ''['' netloc \<and> str_in '']'' netloc
                       \<and> \<not> bracketed_host_ok (bracketed_host netloc)
               then Inl ValueError
               else Inr (split_tail scheme netloc rest))
         else Inr (split_tail scheme [] url))"

text \<open>The six fields of \<^verbatim>\<open>ParseResult\<close>.\<close>

record parse_result =
  scheme :: string
  netloc :: string
  path :: string
  params :: string
  query :: string
  fragment :: string

definition urlparse :: "(string \<Rightarrow> bool) \<Rightarrow> string \<Rightarrow> error + parse_result" where
  "urlparse bracketed_host_ok url0 =
     (case urlsplit bracketed_host_ok url0 of
        Inl e \<Rightarrow> Inl e
      | Inr (sch, loc, url, qry, frag) \<Rightarrow>
          (let (url', prm) =
                 (if sch \<in> set uses_params \<and> str_in '';'' url
                  then splitparams url else (url, []))
           in Inr \<lparr>scheme = sch, netloc = loc, path = url', params = prm,
                    query = qry, fragment = frag\<rparr>))"

section \<open>The feature vector\<close>

text \<open>The argument of \<^verbatim>\<open>extract_features\<close> is any Python value; the feature vector is
  the dictionary that the Python builds, with its keys in the order of insertion.\<close>

datatype pyval = PyNone | PyBool bool | PyInt int | PyStr string

fun truthy :: "pyval \<Rightarrow> bool" where
  "truthy PyNone = False"
| "truthy (PyBool b) = b"
| "truthy (PyInt n) = (n \<noteq> 0)"
| "truthy (PyStr s) = (s \<noteq> [])"

fun isinstance_str :: "pyval \<Rightarrow> bool" where
  "isinstance_str (PyStr s) = True"
| "isinstance_str v = False"

type_synonym features = "(string \<times> int) list"

text \<open>\<^verbatim>\<open>_get_default_features\<close>.\<close>

definition get_default_features :: features where
  "get_default_features = [
     (''url_length'', 0),
     (''num_dots'', 0),
     (''num_hyphens'', 0),
     (''num_digits'', 0),
     (''has_at_symbol'', 0),
     (''num_params'', 0),
     (''has_ip'', 0),
     (''is_https'', 0),
     (''path_length'', 0),
     (''domain_length'', 0),
     (''has_brand_spoofing'', 0),
     (''has_suspicious_tld'', 0),
     (''has_character_substitution'', 0),
     (''has_suspicious_keywords'', 0),
     (''is_url_shortener'', 0),
     (''excessive_subdomains'', 0),
     (''suspicious_keyword_combo'', 0)]"

text \<open>The body of the \<^verbatim>\<open>try\<close> block of \<^verbatim>\<open>extract_features\<close>, for a non-empty
  string: \<open>Inl\<close> is an exception that leaves the block.\<close>

definition extract_try :: "(string \<Rightarrow> bool) \<Rightarrow> string \<Rightarrow> error + features" where
  "extract_try bracketed_host_ok url =
     (case urlparse bracketed_host_ok url of
        Inl e \<Rightarrow> Inl e
      | Inr parsed \<Rightarrow>
          if netloc parsed = [] then Inr get_default_features
          else
            (let hostname = lower (netloc parsed);
                 full_url = lower url;
                 features = [
                   (''url_length'', min (int (length url)) 150),
                   (''num_dots'', min (int (count_list url CHR ''.'')) 5),
                   (''num_hyphens'', min (int (count_list url CHR ''-'')) 5),
                   (''num_digits'', min (int (length (filter isdigit url))) 10),
                   (''has_at_symbol'', if str_in ''@'' url then 1 else 0),
                   (''num_params'', min (int (count_list url CHR ''='')) 5),
                   (''has_ip'', has_ip_address hostname),
                   (''is_https'', if scheme parsed = ''https'' then 1 else 0),
                   (''path_length'', min (int (length (path parsed))) 100),
                   (''domain_length'', min (int (length (netloc parsed))) 50)]
             in case detect_suspicious_keywords full_url hostname of
                  Inl e \<Rightarrow> Inl e
                | Inr suspicious_keywords \<Rightarrow>
                    Inr (features @ [
                      (''has_brand_spoofing'', detect_brand_spoofing hostname full_url),
                      (''has_suspicious_tld'', detect_suspicious_tld hostname),
                      (''has_character_substitution'', detect_character_substitution hostname),
                      (''has_suspicious_keywords'', suspicious_keywords),
                      (''is_url_shortener'', is_url_shortener hostname),
                      (''excessive_subdomains'', has_excessive_subdomains hostname),
                      (''suspicious_keyword_combo'',
                         detect_suspicious_keyword_combinations full_url hostname)])))"

text \<open>\<^verbatim>\<open>extract_features\<close>: a falsy or non-string argument gives the default vector, and
  so does every exception of the block (\<^verbatim>\<open>except Exception\<close>), after it is logged.\<close>

definition extract_features :: "(string \<Rightarrow> bool) \<Rightarrow> pyval \<Rightarrow> features" where
  "extract_features bracketed_host_ok v =
     (if \<not> truthy v \<or> \<not> isinstance_str v then get_default_features
      else
        (case v of
           PyStr url \<Rightarrow>
             (case extract_try bracketed_host_ok url of
                Inl e \<Rightarrow> get_default_features
              | Inr features \<Rightarrow> features)
         | _ \<Rightarrow> get_default_features))"

text \<open>The value of a field of the vector, \<^verbatim>\<open>features[name]\<close>.\<close>

definition field :: "features \<Rightarrow> string \<Rightarrow> int option" where
  "field features name = map_of features name"

text \<open>The seventeen keys of the vector, in the order in which the Python inserts them
  (the keys of \<^verbatim>\<open>_get_default_features\<close>).\<close>

definition schema_fields :: "string list" where
  "schema_fields = [''url_length'', ''num_dots'', ''num_hyphens'', ''num_digits'',
     ''has_at_symbol'', ''num_params'', ''has_ip'', ''is_https'', ''path_length'',
     ''domain_length'', ''has_brand_spoofing'', ''has_suspicious_tld'',
     ''has_character_substitution'', ''has_suspicious_keywords'', ''is_url_shortener'',
     ''excessive_subdomains'', ''suspicious_keyword_combo'']"

section \<open>Notions used by the theorems\<close>

text \<open>What \<^verbatim>\<open>_detect_suspicious_keywords\<close> calls the path: the text after the last
  occurrence of the host in the lower-cased URL.\<close>

definition after_host :: "string \<Rightarrow> string \<Rightarrow> string" where
  "after_host full_url hostname =
     (if str_in hostname full_url then last (split_pieces hostname full_url) else [])"

text \<open>The value that \<^verbatim>\<open>_detect_suspicious_keywords\<close> returns when it does not raise.\<close>

definition suspicious_keywords_value :: "string \<Rightarrow> string \<Rightarrow> int" where
  "suspicious_keywords_value full_url hostname =
     (if is_legitimate_domain hostname \<noteq> 0 then 0
      else if list_ex (\<lambda>keyword. str_in keyword hostname) domain_suspicious_keywords then 1
      else if list_ex (\<lambda>keyword. str_in keyword (after_host full_url hostname))
                path_suspicious_keywords
              \<and> (detect_suspicious_tld hostname \<noteq> 0
                 \<or> has_ip_address hostname \<noteq> 0
                 \<or> str_in ''@'' full_url)
      then 1 else 0)"

text \<open>The characters on which a non-empty word of a pattern can end.\<close>

fun last_chars :: "rexp \<Rightarrow> char set" where
  "last_chars Zero = {}"
| "last_chars One = {}"
| "last_chars (Cls cs) = set cs"
| "last_chars (Alt r s) = last_chars r \<union> last_chars s"
| "last_chars (Seq r s) = last_chars s \<union> (if nullable s then last_chars r else {})"
| "last_chars (Star r) = last_chars r"

text \<open>The positions at which \<open>sub\<close> occurs in a string, overlapping occurrences
  included: a string occurs exactly once when there is one position.\<close>

fun positions :: "string \<Rightarrow> string \<Rightarrow> nat list" where
  "positions sub [] = (if sub = [] then [0] else [])"
| "positions sub (c # cs) =
     (if prefix sub (c # cs) then [0] else []) @ map Suc (positions sub cs)"

text \<open>The legitimacy check in the words of the specification (section 4.2): a leading
  \<^verbatim>\<open>www.\<close> is stripped, once, and the stripped host is an entry of the registry or ends
  with a dot and an entry.\<close>

definition strip_www_prefix :: "string \<Rightarrow> string" where
  "strip_www_prefix h = (if prefix ''www.'' h then drop 4 h else h)"

definition is_legitimate_spec :: "string \<Rightarrow> bool" where
  "is_legitimate_spec h =
     list_ex (\<lambda>domain. strip_www_prefix h = domain
                \<or> endswith (strip_www_prefix h) (''.'' @ domain)) legitimate_domains"

text \<open>The shortener check in the words of the specification (section 4.3): the host,
  after the leading \<^verbatim>\<open>www.\<close> is stripped, is an element of the set of shorteners.\<close>

definition is_url_shortener_spec :: "string \<Rightarrow> bool" where
  "is_url_shortener_spec h = (strip_www_prefix h \<in> set url_shorteners)"

section \<open>Strings and patterns: lemmas\<close>

lemma lower_Nil_iff: "lower s = [] \<longleftrightarrow> s = []"
  by (simp add: lower_def)

lemma endswith_last: "endswith s t \<Longrightarrow> t \<noteq> [] \<Longrightarrow> s \<noteq> [] \<and> last s = last t"
  unfolding endswith_def
  by (metis append_take_drop_id last_appendR length_0_conv le_zero_eq)

text \<open>Deleting the occurrences of \<open>old\<close> keeps the last character of a string that does
  not end on the last character of \<open>old\<close>.\<close>

lemma str_replace_last:
  assumes old: "old \<noteq> []"
  shows "s \<noteq> [] \<Longrightarrow> last s \<noteq> last old \<Longrightarrow>
     str_replace old [] s \<noteq> [] \<and> last (str_replace old [] s) = last s"
proof (induction "length s" arbitrary: s rule: less_induct)
  case less
  from less.prems obtain c cs where s: "s = c # cs" by (cases s) auto
  show ?case
  proof (cases "prefix old (c # cs)")
    case True
    then obtain r where r: "c # cs = old @ r" by (auto simp: prefix_def)
    with less.prems s old have rne: "r \<noteq> []" by auto
    from r old have dr: "drop (length old - 1) cs = r"
      by (cases old) auto
    from r rne s have lr: "last r = last s" by simp
    have "length (c # cs) = length old + length r"
      by (simp only: r length_append)
    with s old have len: "length r < length s" by simp
    from less.hyps[OF len rne] lr less.prems
    have "str_replace old [] r \<noteq> [] \<and> last (str_replace old [] r) = last r" by simp
    moreover from True old dr s have "str_replace old [] s = str_replace old [] r" by simp
    ultimately show ?thesis using lr by simp
  next
    case False
    show ?thesis
    proof (cases "cs = []")
      case True
      with False s show ?thesis by simp
    next
      case ne: False
      from s have "length cs < length s" by simp
      from less.hyps[OF this ne] less.prems s ne
      have "str_replace old [] cs \<noteq> [] \<and> last (str_replace old [] cs) = last cs"
        by simp
      with False ne s show ?thesis by simp
    qed
  qed
qed

lemma nullable_deriv_last: "nullable (deriv c r) \<Longrightarrow> c \<in> last_chars r"
  by (induction r) (auto split: if_splits)

lemma last_chars_deriv: "last_chars (deriv c r) \<subseteq> last_chars r"
  by (induction r) (auto split: if_splits)

lemma matches_last: "matches r s \<Longrightarrow> s \<noteq> [] \<Longrightarrow> last s \<in> last_chars r"
proof (induction s arbitrary: r)
  case Nil
  then show ?case by simp
next
  case (Cons c cs)
  show ?case
  proof (cases "cs = []")
    case True
    with Cons.prems show ?thesis by (simp add: nullable_deriv_last)
  next
    case False
    with Cons have "last cs \<in> last_chars (deriv c r)" by simp
    with last_chars_deriv False show ?thesis by auto
  qed
qed

text \<open>A host that \<^verbatim>\<open>_has_ip_address\<close> accepts ends on a digit or on a newline.\<close>

lemma has_ip_address_last:
  assumes "has_ip_address h \<noteq> 0"
  shows "h \<noteq> [] \<and> last h \<in> set ''0123456789'' \<union> {CHR 0x0A}"
proof -
  from assms have m: "matches ip_pattern h"
    by (simp add: has_ip_address_def split: if_splits)
  have nn: "\<not> nullable ip_pattern"
    by (simp add: ip_pattern_def rep_range_def digit_def numeral_3_eq_3)
  from m nn have ne: "h \<noteq> []" by (cases h) auto
  have "last_chars ip_pattern = set ''0123456789'' \<union> {CHR 0x0A}"
    by (auto simp add: ip_pattern_def rep_range_def digit_def numeral_3_eq_3 numeral_2_eq_2)
  with matches_last[OF m ne] ne show ?thesis by auto
qed

section \<open>A host that occurs once in the URL\<close>

text \<open>When the host occurs exactly once in the lower-cased URL, what
  \<^verbatim>\<open>full_url.split(hostname)[-1]\<close> returns is the text behind that occurrence.\<close>

lemma str_in_positions: "str_in sub s \<longleftrightarrow> positions sub s \<noteq> []"
  by (induction s) auto

lemma positions_Nil_drop: "positions sub s = [] \<Longrightarrow> positions sub (drop k s) = []"
proof (induction s arbitrary: k)
  case Nil
  then show ?case by simp
next
  case (Cons c cs)
  then show ?case by (cases k) (auto split: if_splits)
qed

lemma split_pieces_none:
  "sub \<noteq> [] \<Longrightarrow> positions sub s = [] \<Longrightarrow> split_pieces sub s = [s]"
  by (induction s) (auto split: if_splits)

lemma split_pieces_once:
  assumes sub: "sub \<noteq> []"
  shows "positions sub s = [i] \<Longrightarrow>
           split_pieces sub s = [take i s, drop (i + length sub) s]"
proof (induction s arbitrary: i)
  case Nil
  with sub show ?case by simp
next
  case (Cons c cs)
  show ?case
  proof (cases "prefix sub (c # cs)")
    case True
    with Cons.prems have i: "i = 0" and none: "positions sub cs = []" by auto
    from sub have d: "drop (length sub) (c # cs) = drop (length sub - 1) cs"
      by (cases sub) auto
    from split_pieces_none[OF sub positions_Nil_drop[OF none]]
    have "split_pieces sub (drop (length sub - 1) cs) = [drop (length sub - 1) cs]" .
    with True sub i d show ?thesis by simp
  next
    case False
    with Cons.prems obtain j where i: "i = Suc j" and j: "positions sub cs = [j]"
      by (auto simp add: map_eq_Cons_conv)
    from Cons.IH[OF j] False i show ?thesis by simp
  qed
qed

lemma after_host_once:
  assumes "hostname \<noteq> []" and "positions hostname full_url = [i]"
  shows "after_host full_url hostname = drop (i + length hostname) full_url"
  using assms by (simp add: after_host_def str_in_positions split_pieces_once)

text \<open>Lower-casing neither makes nor removes an \<^verbatim>\<open>@\<close>.\<close>

lemma lower_char_at: "lower_char c = CHR ''@'' \<longleftrightarrow> c = CHR ''@''"
proof
  assume a: "lower_char c = CHR ''@''"
  show "c = CHR ''@''"
  proof (rule ccontr)
    assume n: "c \<noteq> CHR ''@''"
    let ?n = "of_char c :: nat"
    from a n have cond: "(65 \<le> ?n \<and> ?n \<le> 90) \<or> (192 \<le> ?n \<and> ?n \<le> 222 \<and> ?n \<noteq> 215)"
      and e: "char_of (?n + 32) = CHR ''@''"
      by (auto simp add: lower_char_def Let_def split: if_splits)
    from e have "(of_char (char_of (?n + 32) :: char) :: nat) = of_char (CHR ''@'')" by simp
    then have "(?n + 32) mod 256 = 64" by (simp add: of_char_of)
    with cond show False by auto
  qed
next
  assume "c = CHR ''@''"
  then show "lower_char c = CHR ''@''" by (simp add: lower_char_def)
qed

lemma str_in_single: "str_in [c] s \<longleftrightarrow> c \<in> set s"
  by (induction s) auto

lemma at_in_lower: "str_in ''@'' (lower s) \<longleftrightarrow> CHR ''@'' \<in> set s"
proof -
  have r: "CHR ''@'' = lower_char c \<longleftrightarrow> CHR ''@'' = c" for c
    using lower_char_at[of c] by auto
  have "CHR ''@'' \<in> set (lower s) \<longleftrightarrow> CHR ''@'' \<in> set s"
    by (induction s) (simp_all add: lower_def r)
  then show ?thesis by (simp add: str_in_single)
qed

section \<open>The vector of a URL that parses\<close>

lemma detect_suspicious_keywords_Inr:
  "hostname \<noteq> [] \<Longrightarrow>
     detect_suspicious_keywords full_url hostname
       = Inr (suspicious_keywords_value full_url hostname)"
  by (auto simp add: detect_suspicious_keywords_def suspicious_keywords_value_def
        after_host_def str_split_def Let_def simp del: str_in.simps)

lemma urlparse_Nil: "urlparse chk [] = Inr p \<Longrightarrow> netloc p = []"
  by (auto simp add: urlparse_def urlsplit_def str_find_def split_tail_def
        unsafe_url_bytes_to_remove_def slice_to_def slice_from_def)

text \<open>When the parser returns a non-empty authority, no exception leaves the block and
  the vector is the one the Python assembles.\<close>

lemma extract_features_parsed:
  assumes p: "urlparse chk url = Inr p" and n: "netloc p \<noteq> []"
  shows "extract_features chk (PyStr url) =
     [(''url_length'', min (int (length url)) 150),
      (''num_dots'', min (int (count_list url CHR ''.'')) 5),
      (''num_hyphens'', min (int (count_list url CHR ''-'')) 5),
      (''num_digits'', min (int (length (filter isdigit url))) 10),
      (''has_at_symbol'', if str_in ''@'' url then 1 else 0),
      (''num_params'', min (int (count_list url CHR ''='')) 5),
      (''has_ip'', has_ip_address (lower (netloc p))),
      (''is_https'', if scheme p = ''https'' then 1 else 0),
      (''path_length'', min (int (length (path p))) 100),
      (''domain_length'', min (int (length (netloc p))) 50),
      (''has_brand_spoofing'', detect_brand_spoofing (lower (netloc p)) (lower url)),
      (''has_suspicious_tld'', detect_suspicious_tld (lower (netloc p))),
      (''has_character_substitution'', detect_character_substitution (lower (netloc p))),
      (''has_suspicious_keywords'', suspicious_keywords_value (lower url) (lower (netloc p))),
      (''is_url_shortener'', is_url_shortener (lower (netloc p))),
      (''excessive_subdomains'', has_excessive_subdomains (lower (netloc p))),
      (''suspicious_keyword_combo'',
         detect_suspicious_keyword_combinations (lower url) (lower (netloc p)))]"
proof -
  from p n have u: "url \<noteq> []" using urlparse_Nil by blast
  from n have h: "lower (netloc p) \<noteq> []" by (simp add: lower_Nil_iff)
  show ?thesis
    using u n
    by (simp add: extract_features_def extract_try_def p
          detect_suspicious_keywords_Inr[OF h] Let_def)
qed

lemma field_parsed:
  assumes "urlparse chk url = Inr p" and "netloc p \<noteq> []"
  shows "field (extract_features chk (PyStr url)) ''url_length''
           = Some (min (int (length url)) 150)"
    and "field (extract_features chk (PyStr url)) ''num_dots''
           = Some (min (int (count_list url CHR ''.'')) 5)"
    and "field (extract_features chk (PyStr url)) ''num_hyphens''
           = Some (min (int (count_list url CHR ''-'')) 5)"
    and "field (extract_features chk (PyStr url)) ''num_digits''
           = Some (min (int (length (filter isdigit url))) 10)"
    and "field (extract_features chk (PyStr url)) ''has_at_symbol''
           = Some (if str_in ''@'' url then 1 else 0)"
    and "field (extract_features chk (PyStr url)) ''num_params''
           = Some (min (int (count_list url CHR ''='')) 5)"
    and "field (extract_features chk (PyStr url)) ''has_ip''
           = Some (has_ip_address (lower (netloc p)))"
    and "field (extract_features chk (PyStr url)) ''is_https''
           = Some (if scheme p = ''https'' then 1 else 0)"
    and "field (extract_features chk (PyStr url)) ''path_length''
           = Some (min (int (length (path p))) 100)"
    and "field (extract_features chk (PyStr url)) ''domain_length''
           = Some (min (int (length (netloc p))) 50)"
    and "field (extract_features chk (PyStr url)) ''has_brand_spoofing''
           = Some (detect_brand_spoofing (lower (netloc p)) (lower url))"
    and "field (extract_features chk (PyStr url)) ''has_suspicious_tld''
           = Some (detect_suspicious_tld (lower (netloc p)))"
    and "field (extract_features chk (PyStr url)) ''has_character_substitution''
           = Some (detect_character_substitution (lower (netloc p)))"
    and "field (extract_features chk (PyStr url)) ''has_suspicious_keywords''
           = Some (suspicious_keywords_value (lower url) (lower (netloc p)))"
    and "field (extract_features chk (PyStr url)) ''is_url_shortener''
           = Some (is_url_shortener (lower (netloc p)))"
    and "field (extract_features chk (PyStr url)) ''excessive_subdomains''
           = Some (has_excessive_subdomains (lower (netloc p)))"
    and "field (extract_features chk (PyStr url)) ''suspicious_keyword_combo''
           = Some (detect_suspicious_keyword_combinations (lower url) (lower (netloc p)))"
  by (simp_all add: extract_features_parsed[OF assms] field_def)

section \<open>The parser on the URLs of the examples\<close>

lemma parse_ip_login:
  "urlparse chk ''http://192.168.1.100/paypal-login''
     = Inr \<lparr>scheme = ''http'', netloc = ''192.168.1.100'', path = ''/paypal-login'',
              params = [], query = [], fragment = []\<rparr>"
  by code_simp

lemma parse_abc:
  "urlparse chk ''abc''
     = Inr \<lparr>scheme = [], netloc = [], path = ''abc'', params = [], query = [], fragment = []\<rparr>"
  by code_simp

lemma parse_bitly:
  "urlparse chk ''https://bit.ly/x''
     = Inr \<lparr>scheme = ''https'', netloc = ''bit.ly'', path = ''/x'',
              params = [], query = [], fragment = []\<rparr>"
  by code_simp

lemma parse_bitly_evil:
  "urlparse chk ''https://bit.ly.evil.com/x''
     = Inr \<lparr>scheme = ''https'', netloc = ''bit.ly.evil.com'', path = ''/x'',
              params = [], query = [], fragment = []\<rparr>"
  by code_simp

lemma parse_paypal_verify:
  "urlparse chk ''https://paypal-verify.com/a''
     = Inr \<lparr>scheme = ''https'', netloc = ''paypal-verify.com'', path = ''/a'',
              params = [], query = [], fragment = []\<rparr>"
  by code_simp

lemma parse_paypal_verify_upper:
  "urlparse chk ''http://PayPal-Verify.com/amazon-login?x=1''
     = Inr \<lparr>scheme = ''http'', netloc = ''PayPal-Verify.com'', path = ''/amazon-login'',
              params = [], query = ''x=1'', fragment = []\<rparr>"
  by code_simp

lemma parse_awww:
  "urlparse chk ''https://awww.google.com/anything''
     = Inr \<lparr>scheme = ''https'', netloc = ''awww.google.com'', path = ''/anything'',
              params = [], query = [], fragment = []\<rparr>"
  by code_simp

lemma parse_tco:
  "urlparse chk ''https://t.co/x''
     = Inr \<lparr>scheme = ''https'', netloc = ''t.co'', path = ''/x'',
              params = [], query = [], fragment = []\<rparr>"
  by code_simp

lemma parse_google_verify:
  "urlparse chk ''https://google.com/verify''
     = Inr \<lparr>scheme = ''https'', netloc = ''google.com'', path = ''/verify'',
              params = [], query = [], fragment = []\<rparr>"
  by code_simp

lemma parse_google_port:
  "urlparse chk ''https://google.com:443/verify''
     = Inr \<lparr>scheme = ''https'', netloc = ''google.com:443'', path = ''/verify'',
              params = [], query = [], fragment = []\<rparr>"
  by code_simp

lemma parse_bit_www_ly:
  "urlparse chk ''https://bit.www.ly/x''
     = Inr \<lparr>scheme = ''https'', netloc = ''bit.www.ly'', path = ''/x'',
              params = [], query = [], fragment = []\<rparr>"
  by code_simp

lemma parse_ip_query:
  "urlparse chk ''http://1.2.3.4/?q=urgent''
     = Inr \<lparr>scheme = ''http'', netloc = ''1.2.3.4'', path = ''/'',
              params = [], query = ''q=urgent'', fragment = []\<rparr>"
  by code_simp

lemma extract_features_no_host:
  assumes "urlparse chk url = Inr p" and "netloc p = []"
  shows "extract_features chk (PyStr url) = get_default_features"
  using assms by (simp add: extract_features_def extract_try_def)

lemma extract_features_raised:
  assumes "urlparse chk url = Inl e"
  shows "extract_features chk (PyStr url) = get_default_features"
  using assms by (simp add: extract_features_def extract_try_def)

lemma extract_features_keys: "map fst (extract_features chk v) = schema_fields"
proof (cases v)
  case (PyStr url)
  show ?thesis
  proof (cases "urlparse chk url")
    case (Inl e)
    with PyStr show ?thesis
      by (simp add: extract_features_raised get_default_features_def schema_fields_def)
  next
    case (Inr p)
    show ?thesis
    proof (cases "netloc p = []")
      case True
      with Inr PyStr show ?thesis
        by (simp add: extract_features_no_host get_default_features_def schema_fields_def)
    next
      case False
      with Inr PyStr show ?thesis
        by (simp add: extract_features_parsed schema_fields_def)
    qed
  qed
qed (simp_all add: extract_features_def get_default_features_def schema_fields_def)

section \<open>The last character of a legitimate host\<close>

text \<open>Every entry of the registry ends on one of ten letters, and none of them ends a
  suspicious top-level domain or an IP address: a host that passes the legitimacy check
  is flagged by neither \<^verbatim>\<open>_detect_suspicious_tld\<close> nor \<^verbatim>\<open>_has_ip_address\<close>, although
  these two never consult the check.\<close>

lemma legitimate_domains_last:
  "d \<in> set legitimate_domains \<Longrightarrow> d \<noteq> [] \<and> last d \<in> set ''megotsihpv''"
proof -
  have "list_all (\<lambda>d. d \<noteq> [] \<and> last d \<in> set ''megotsihpv'') legitimate_domains"
    by code_simp
  then show "d \<in> set legitimate_domains \<Longrightarrow> d \<noteq> [] \<and> last d \<in> set ''megotsihpv''"
    by (simp add: list_all_iff)
qed

lemma suspicious_tlds_last:
  "t \<in> set suspicious_tlds \<Longrightarrow> t \<noteq> [] \<and> last t \<in> set ''klafqnd''"
proof -
  have "list_all (\<lambda>t. t \<noteq> [] \<and> last t \<in> set ''klafqnd'') suspicious_tlds"
    by code_simp
  then show "t \<in> set suspicious_tlds \<Longrightarrow> t \<noteq> [] \<and> last t \<in> set ''klafqnd''"
    by (simp add: list_all_iff)
qed

lemma is_legitimate_domain_last:
  assumes leg: "is_legitimate_domain h \<noteq> 0" and ne: "h \<noteq> []" and dot: "last h \<noteq> CHR ''.''"
  shows "last h \<in> set ''megotsihpv''"
proof -
  let ?c = "str_replace ''www.'' [] h"
  from str_replace_last[of "''www.''" h] ne dot
  have c: "?c \<noteq> []" "last ?c = last h" by simp_all
  from leg obtain d where d: "d \<in> set legitimate_domains"
    and m: "?c = d \<or> endswith ?c (''.'' @ d)"
    by (auto simp add: is_legitimate_domain_def Let_def list_ex_iff split: if_splits)
  from legitimate_domains_last[OF d] have dl: "d \<noteq> []" "last d \<in> set ''megotsihpv''"
    by blast+
  from m have "last ?c = last d"
  proof
    assume "?c = d" then show ?thesis by simp
  next
    assume "endswith ?c (''.'' @ d)"
    from endswith_last[OF this] dl(1) show ?thesis by simp
  qed
  with c dl show ?thesis by simp
qed

lemma detect_suspicious_tld_last:
  assumes "detect_suspicious_tld h \<noteq> 0"
  shows "h \<noteq> [] \<and> last h \<in> set ''klafqnd''"
proof -
  from assms obtain t where t: "t \<in> set suspicious_tlds" and e: "endswith h t"
    by (auto simp add: detect_suspicious_tld_def list_ex_iff split: if_splits)
  from suspicious_tlds_last[OF t] endswith_last[OF e] show ?thesis by simp
qed

lemma legitimate_no_suspicious_tld:
  assumes "is_legitimate_domain h \<noteq> 0"
  shows "detect_suspicious_tld h = 0"
proof (rule ccontr)
  assume "detect_suspicious_tld h \<noteq> 0"
  from detect_suspicious_tld_last[OF this]
  have a: "h \<noteq> []" "last h \<in> set ''klafqnd''" by blast+
  then have "last h \<noteq> CHR ''.''" by auto
  from is_legitimate_domain_last[OF assms a(1) this] a(2) show False by auto
qed

lemma legitimate_no_ip:
  assumes "is_legitimate_domain h \<noteq> 0"
  shows "has_ip_address h = 0"
proof (rule ccontr)
  assume "has_ip_address h \<noteq> 0"
  from has_ip_address_last[OF this]
  have a: "h \<noteq> []" "last h \<in> set ''0123456789'' \<union> {CHR 0x0A}" by blast+
  then have "last h \<noteq> CHR ''.''" by auto
  from is_legitimate_domain_last[OF assms a(1) this] a(2) show False by auto
qed

text \<open>An authority that ends with a port ends on a digit or on the colon.\<close>

lemma lower_char_digit: "c \<in> set ''0123456789:'' \<Longrightarrow> lower_char c = c"
  by (auto simp add: lower_char_def)

lemma explicit_port_last:
  assumes "list_all (\<lambda>c. c \<in> set ''0123456789'') port"
  shows "last (lower (h @ '':'' @ port)) \<in> set ''0123456789:''"
proof (cases "port = []")
  case True
  then show ?thesis by (simp add: lower_def lower_char_def)
next
  case False
  with assms have "last port \<in> set ''0123456789''"
    by (metis last_in_set list_all_iff)
  then have d: "last port \<in> set ''0123456789:''" by auto
  from False have "last (lower (h @ '':'' @ port)) = lower_char (last port)"
    by (simp add: lower_def last_map)
  with lower_char_digit[OF d] d show ?thesis by simp
qed

section \<open>The claims\<close>

text \<open>
  Claim C7 (cap equation), as the specification states it: for all strings \<open>s\<close>, the
  vector has \<open>url_length = min(len(s), 150)\<close>, \<open>num_dots = min(number of dots, 5)\<close>,
  \<open>num_hyphens = min(number of hyphens, 5)\<close>, \<open>num_digits = min(number of digits, 10)\<close>,
  \<open>num_params = min(number of equals signs, 5)\<close>, \<open>path_length = min(len(path), 100)\<close>
  and \<open>domain_length = min(len(host), 50)\<close>.

  The equations hold for every string that parses with a non-empty authority. A string
  with no authority gets the default vector, whose counts are all 0: for \<^verbatim>\<open>abc\<close> the
  field \<open>url_length\<close> is 0 and not 3.
\<close>

theorem cap_equations:
  assumes "urlparse chk s = Inr p" and "netloc p \<noteq> []"
  shows "field (extract_features chk (PyStr s)) ''url_length'' = Some (min (int (length s)) 150)
       \<and> field (extract_features chk (PyStr s)) ''num_dots''
           = Some (min (int (count_list s CHR ''.'')) 5)
       \<and> field (extract_features chk (PyStr s)) ''num_hyphens''
           = Some (min (int (count_list s CHR ''-'')) 5)
       \<and> field (extract_features chk (PyStr s)) ''num_digits''
           = Some (min (int (length (filter isdigit s))) 10)
       \<and> field (extract_features chk (PyStr s)) ''num_params''
           = Some (min (int (count_list s CHR ''='')) 5)
       \<and> field (extract_features chk (PyStr s)) ''path_length''
           = Some (min (int (length (path p))) 100)
       \<and> field (extract_features chk (PyStr s)) ''domain_length''
           = Some (min (int (length (netloc p))) 50)"
  using field_parsed[OF assms] by simp

text \<open>The equations at \<^verbatim>\<open>http://192.168.1.100/paypal-login\<close>, where the digit count
  reaches its cap.\<close>

theorem cap_equations_witness:
  "\<forall>chk. field (extract_features chk (PyStr ''http://192.168.1.100/paypal-login'')) ''url_length'' = Some 33
       \<and> field (extract_features chk (PyStr ''http://192.168.1.100/paypal-login'')) ''num_dots'' = Some 3
       \<and> field (extract_features chk (PyStr ''http://192.168.1.100/paypal-login'')) ''num_hyphens'' = Some 1
       \<and> field (extract_features chk (PyStr ''http://192.168.1.100/paypal-login'')) ''num_digits'' = Some 10
       \<and> field (extract_features chk (PyStr ''http://192.168.1.100/paypal-login'')) ''num_params'' = Some 0
       \<and> field (extract_features chk (PyStr ''http://192.168.1.100/paypal-login'')) ''path_length'' = Some 13
       \<and> field (extract_features chk (PyStr ''http://192.168.1.100/paypal-login'')) ''domain_length'' = Some 13"
  (is "\<forall>chk. ?P chk")
proof (rule allI)
  fix chk :: "string \<Rightarrow> bool"
  let ?u = "''http://192.168.1.100/paypal-login''"
  let ?p = "\<lparr>scheme = ''http'', netloc = ''192.168.1.100'', path = ''/paypal-login'',
              params = [], query = [], fragment = []\<rparr>"
  have p: "urlparse chk ?u = Inr ?p" by (rule parse_ip_login)
  have n: "netloc ?p \<noteq> []" by simp
  have e: "min (int (length ?u)) 150 = 33"
    "min (int (count_list ?u CHR ''.'')) 5 = 3"
    "min (int (count_list ?u CHR ''-'')) 5 = 1"
    "min (int (length (filter isdigit ?u))) 10 = 10"
    "min (int (count_list ?u CHR ''='')) 5 = 0"
    "min (int (length (path ?p))) 100 = 13"
    "min (int (length (netloc ?p))) 50 = 13"
    by code_simp+
  from cap_equations[OF p n] show "?P chk" unfolding e .
qed

text \<open>The claim as stated fails at \<^verbatim>\<open>abc\<close>.\<close>

theorem cap_equations_counterexample:
  "\<forall>chk. field (extract_features chk (PyStr ''abc'')) ''url_length''
      \<noteq> Some (min (int (length ''abc'')) 150)"
proof (rule allI)
  fix chk :: "string \<Rightarrow> bool"
  have "extract_features chk (PyStr ''abc'') = get_default_features"
    by (rule extract_features_no_host[OF parse_abc]) simp
  then show "field (extract_features chk (PyStr ''abc'')) ''url_length''
      \<noteq> Some (min (int (length ''abc'')) 150)"
    by (simp add: field_def get_default_features_def)
qed

text \<open>
  Claim C9 (brand spoofing depends only on the host): two URLs that both parse, with a
  non-empty authority, and whose lower-cased authorities are equal get the same
  \<open>has_brand_spoofing\<close>, whatever their schemes, paths and queries hold.
\<close>

theorem brand_spoofing_host_only:
  assumes "urlparse chk u1 = Inr p1" and "netloc p1 \<noteq> []"
    and "urlparse chk u2 = Inr p2" and "netloc p2 \<noteq> []"
    and "lower (netloc p1) = lower (netloc p2)"
  shows "field (extract_features chk (PyStr u1)) ''has_brand_spoofing''
       = field (extract_features chk (PyStr u2)) ''has_brand_spoofing''"
  using assms by (simp add: field_parsed(11) detect_brand_spoofing_def)

text \<open>Two URLs of one host that differ in case, scheme, path and query; the path of the
  second names another brand.\<close>

theorem brand_spoofing_host_only_witness:
  "\<forall>chk. field (extract_features chk (PyStr ''https://paypal-verify.com/a'')) ''has_brand_spoofing''
           = Some 1
        \<and> field (extract_features chk (PyStr ''http://PayPal-Verify.com/amazon-login?x=1''))
             ''has_brand_spoofing'' = Some 1"
  (is "\<forall>chk. ?P chk")
proof (rule allI)
  fix chk :: "string \<Rightarrow> bool"
  let ?p1 = "\<lparr>scheme = ''https'', netloc = ''paypal-verify.com'', path = ''/a'',
              params = [], query = [], fragment = []\<rparr>"
  let ?p2 = "\<lparr>scheme = ''http'', netloc = ''PayPal-Verify.com'', path = ''/amazon-login'',
              params = [], query = ''x=1'', fragment = []\<rparr>"
  have n1: "netloc ?p1 \<noteq> []" and n2: "netloc ?p2 \<noteq> []" by simp_all
  have l: "lower (netloc ?p1) = lower (netloc ?p2)" by code_simp
  have v: "detect_brand_spoofing (lower (netloc ?p1)) (lower ''https://paypal-verify.com/a'') = 1"
    by code_simp
  have a: "field (extract_features chk (PyStr ''https://paypal-verify.com/a''))
             ''has_brand_spoofing'' = Some 1"
    using field_parsed(11)[OF parse_paypal_verify n1, of chk] unfolding v .
  from brand_spoofing_host_only[OF parse_paypal_verify n1 parse_paypal_verify_upper n2 l, of chk] a
  show "?P chk" by simp
qed

text \<open>
  Claim C6 (totality and recovery): for every argument, a string or not,
  \<^verbatim>\<open>extract_features\<close> returns a vector with the seventeen fields of the schema, in
  their order: every exception of the block is an \<open>Inl\<close> of \<open>extract_try\<close>, and
  \<open>extract_features\<close> turns it into the default vector. The default vector is 0 in
  every field, and it is the result for the empty string, for an argument that is not a
  string, and for a string that parses with an empty authority.
\<close>

theorem extract_features_total:
  "map fst (extract_features chk v) = schema_fields
   \<and> get_default_features = map (\<lambda>name. (name, 0)) schema_fields
   \<and> (v = PyStr [] \<or> \<not> isinstance_str v \<longrightarrow> extract_features chk v = get_default_features)
   \<and> (\<forall>url p. v = PyStr url \<and> urlparse chk url = Inr p \<and> netloc p = []
         \<longrightarrow> extract_features chk v = get_default_features)"
proof (intro conjI)
  show "map fst (extract_features chk v) = schema_fields" by (rule extract_features_keys)
  show "get_default_features = map (\<lambda>name. (name, 0)) schema_fields"
    by (simp add: get_default_features_def schema_fields_def)
  show "v = PyStr [] \<or> \<not> isinstance_str v \<longrightarrow> extract_features chk v = get_default_features"
    by (auto simp add: extract_features_def)
  show "\<forall>url p. v = PyStr url \<and> urlparse chk url = Inr p \<and> netloc p = []
         \<longrightarrow> extract_features chk v = get_default_features"
    by (auto simp add: extract_features_no_host)
qed

text \<open>A string with no authority, the empty string, \<^verbatim>\<open>None\<close> and an integer.\<close>

theorem extract_features_total_witness:
  "\<forall>chk. map fst (extract_features chk (PyStr ''abc'')) = schema_fields
        \<and> extract_features chk (PyStr ''abc'') = get_default_features
        \<and> extract_features chk (PyStr []) = get_default_features
        \<and> extract_features chk PyNone = get_default_features
        \<and> extract_features chk (PyInt 7) = get_default_features"
  (is "\<forall>chk. ?P chk")
proof (rule allI)
  fix chk :: "string \<Rightarrow> bool"
  have n: "netloc \<lparr>scheme = [], netloc = [], path = ''abc'', params = [], query = [],
              fragment = []\<rparr> = []" by simp
  from extract_features_total[of chk "PyStr ''abc''"] parse_abc[of chk] n
  have a: "map fst (extract_features chk (PyStr ''abc'')) = schema_fields"
    and b: "extract_features chk (PyStr ''abc'') = get_default_features" by blast+
  from extract_features_total[of chk "PyStr []"]
  have c: "extract_features chk (PyStr []) = get_default_features" by blast
  from extract_features_total[of chk PyNone]
  have d: "extract_features chk PyNone = get_default_features" by simp
  from extract_features_total[of chk "PyInt 7"]
  have e: "extract_features chk (PyInt 7) = get_default_features" by simp
  from a b c d e show "?P chk" by blast
qed

text \<open>
  Claim C4 (an IP host with a hyphenated brand token in the path), as the specification
  states it: \<^verbatim>\<open>http://192.168.1.100/paypal-login\<close> has \<open>has_ip = 1\<close>,
  \<open>is_https = 0\<close> and \<open>has_brand_spoofing = 1\<close>.

  The first two values are as stated. \<^verbatim>\<open>_detect_brand_spoofing\<close> looks for the brand in
  the host only (its \<^verbatim>\<open>full_url\<close> argument is not read), and the host
  \<^verbatim>\<open>192.168.1.100\<close> names no brand: \<open>has_brand_spoofing\<close> is 0.
\<close>

theorem ip_host_brand_in_path:
  "field (extract_features chk (PyStr ''http://192.168.1.100/paypal-login'')) ''has_ip'' = Some 1
   \<and> field (extract_features chk (PyStr ''http://192.168.1.100/paypal-login'')) ''is_https''
       = Some 0
   \<and> field (extract_features chk (PyStr ''http://192.168.1.100/paypal-login''))
       ''has_brand_spoofing'' = Some 0"
proof -
  let ?u = "''http://192.168.1.100/paypal-login''"
  let ?p = "\<lparr>scheme = ''http'', netloc = ''192.168.1.100'', path = ''/paypal-login'',
              params = [], query = [], fragment = []\<rparr>"
  have n: "netloc ?p \<noteq> []" by simp
  have e: "has_ip_address (lower (netloc ?p)) = 1"
    "(if scheme ?p = ''https'' then 1 else 0) = (0::int)"
    "detect_brand_spoofing (lower (netloc ?p)) (lower ?u) = 0"
    by code_simp+
  from field_parsed(7,8,11)[OF parse_ip_login n, of chk] show ?thesis unfolding e by blast
qed

text \<open>The three values, for every check of a bracketed host.\<close>

theorem ip_host_brand_in_path_witness:
  "\<forall>chk. field (extract_features chk (PyStr ''http://192.168.1.100/paypal-login'')) ''has_ip''
           = Some 1
   \<and> field (extract_features chk (PyStr ''http://192.168.1.100/paypal-login'')) ''is_https''
       = Some 0
   \<and> field (extract_features chk (PyStr ''http://192.168.1.100/paypal-login''))
       ''has_brand_spoofing'' = Some 0"
  using ip_host_brand_in_path by blast

text \<open>The claim as stated fails: \<open>has_brand_spoofing\<close> is not 1.\<close>

theorem ip_host_brand_in_path_counterexample:
  "\<forall>chk. field (extract_features chk (PyStr ''http://192.168.1.100/paypal-login''))
       ''has_brand_spoofing'' \<noteq> Some 1"
proof (rule allI)
  fix chk :: "string \<Rightarrow> bool"
  let ?u = "''http://192.168.1.100/paypal-login''"
  let ?p = "\<lparr>scheme = ''http'', netloc = ''192.168.1.100'', path = ''/paypal-login'',
              params = [], query = [], fragment = []\<rparr>"
  have n: "netloc ?p \<noteq> []" by simp
  have e: "detect_brand_spoofing (lower (netloc ?p)) (lower ?u) = 0" by code_simp
  from field_parsed(11)[OF parse_ip_login n, of chk]
  show "field (extract_features chk (PyStr ?u)) ''has_brand_spoofing'' \<noteq> Some 1"
    unfolding e by simp
qed

text \<open>
  Claim C8 (shortener detection is membership of the host): \<^verbatim>\<open>https://bit.ly/x\<close> has
  \<open>is_url_shortener = 1\<close> and \<^verbatim>\<open>https://bit.ly.evil.com/x\<close> has
  \<open>is_url_shortener = 0\<close>; a host is flagged only when the host, with its leading
  \<^verbatim>\<open>www.\<close> stripped, is itself an element of the set of shorteners.

  The two values are as stated. \<^verbatim>\<open>_is_url_shortener\<close> removes every occurrence of
  \<^verbatim>\<open>www.\<close>, as \<^verbatim>\<open>_is_legitimate_domain\<close> does (C2), and so flags a host that is not an
  element of the set: \<^verbatim>\<open>bit.www.ly\<close> is turned into \<^verbatim>\<open>bit.ly\<close>.
\<close>

theorem shortener_www_inside_host:
  "field (extract_features chk (PyStr ''https://bit.ly/x'')) ''is_url_shortener'' = Some 1
   \<and> field (extract_features chk (PyStr ''https://bit.ly.evil.com/x'')) ''is_url_shortener''
       = Some 0
   \<and> \<not> is_url_shortener_spec (lower ''bit.www.ly'')
   \<and> field (extract_features chk (PyStr ''https://bit.www.ly/x'')) ''is_url_shortener''
       = Some 1"
proof (intro conjI)
  let ?p = "\<lparr>scheme = ''https'', netloc = ''bit.ly'', path = ''/x'',
              params = [], query = [], fragment = []\<rparr>"
  let ?q = "\<lparr>scheme = ''https'', netloc = ''bit.ly.evil.com'', path = ''/x'',
              params = [], query = [], fragment = []\<rparr>"
  let ?r = "\<lparr>scheme = ''https'', netloc = ''bit.www.ly'', path = ''/x'',
              params = [], query = [], fragment = []\<rparr>"
  have n: "netloc ?p \<noteq> []" "netloc ?q \<noteq> []" "netloc ?r \<noteq> []" by simp_all
  have e: "is_url_shortener (lower (netloc ?p)) = 1" "is_url_shortener (lower (netloc ?q)) = 0"
    "is_url_shortener (lower (netloc ?r)) = 1"
    by code_simp+
  from field_parsed(15)[OF parse_bitly n(1), of chk]
  show "field (extract_features chk (PyStr ''https://bit.ly/x'')) ''is_url_shortener'' = Some 1"
    unfolding e .
  from field_parsed(15)[OF parse_bitly_evil n(2), of chk]
  show "field (extract_features chk (PyStr ''https://bit.ly.evil.com/x'')) ''is_url_shortener''
       = Some 0"
    unfolding e .
  from field_parsed(15)[OF parse_bit_www_ly n(3), of chk]
  show "field (extract_features chk (PyStr ''https://bit.www.ly/x'')) ''is_url_shortener''
       = Some 1"
    unfolding e .
  show "\<not> is_url_shortener_spec (lower ''bit.www.ly'')" by code_simp
qed

text \<open>The same, for every check of a bracketed host.\<close>

theorem shortener_www_inside_host_witness:
  "\<forall>chk. field (extract_features chk (PyStr ''https://bit.ly/x'')) ''is_url_shortener'' = Some 1
   \<and> field (extract_features chk (PyStr ''https://bit.ly.evil.com/x'')) ''is_url_shortener''
       = Some 0
   \<and> \<not> is_url_shortener_spec (lower ''bit.www.ly'')
   \<and> field (extract_features chk (PyStr ''https://bit.www.ly/x'')) ''is_url_shortener''
       = Some 1"
  using shortener_www_inside_host by blast

text \<open>
  Claim C2 (whitelist matching): the legitimacy check holds for a host exactly when the
  host, with one leading \<^verbatim>\<open>www.\<close> stripped, is an entry of the registry or ends with a
  dot and an entry; a \<^verbatim>\<open>www.\<close> elsewhere in the host has no effect.

  The Python removes every occurrence of \<^verbatim>\<open>www.\<close> (\<^verbatim>\<open>hostname.replace('www.', '')\<close>,
  under the comment "Remove www. prefix"), so the check and the specification's wording
  \<open>is_legitimate_spec\<close> part: the subdomain \<^verbatim>\<open>awww.google.com\<close> of a registry entry is
  turned into \<^verbatim>\<open>agoogle.com\<close> and rejected, and \<^verbatim>\<open>google.www.com\<close> is turned into
  \<^verbatim>\<open>google.com\<close> and accepted.
\<close>

theorem www_removed_everywhere:
  "is_legitimate_spec ''awww.google.com'' \<and> is_legitimate_domain ''awww.google.com'' = 0
   \<and> \<not> is_legitimate_spec ''google.www.com'' \<and> is_legitimate_domain ''google.www.com'' = 1"
  by code_simp

text \<open>The example of the claim for containment without a dot boundary is rejected, as
  the claim says.\<close>

lemma no_substring_leniency: "is_legitimate_domain ''evil-google.com.evil.tk'' = 0"
  by code_simp

text \<open>
  Claim C1 (legitimacy veto of the spoofing detectors): for every registry entry \<open>h\<close>,
  and for \<^verbatim>\<open>www.\<close> before it and any label and a dot before it, the URL
  \<^verbatim>\<open>https://\<close> host \<^verbatim>\<open>/anything\<close> has \<open>has_brand_spoofing\<close>,
  \<open>has_character_substitution\<close>, \<open>has_suspicious_keywords\<close> and
  \<open>suspicious_keyword_combo\<close> all 0.

  The Python breaks it for a label that ends in \<^verbatim>\<open>www\<close>: the host
  \<^verbatim>\<open>awww.google.com\<close> fails the legitimacy check (see C2), and the pattern
  \<^verbatim>\<open>g[o0@]{2}gle\<close> then matches its label \<^verbatim>\<open>google\<close>.
\<close>

theorem dot_suffixed_variant_flagged:
  "''google.com'' \<in> set legitimate_domains
   \<and> field (extract_features chk (PyStr ''https://awww.google.com/anything''))
        ''has_character_substitution'' = Some 1"
proof -
  let ?p = "\<lparr>scheme = ''https'', netloc = ''awww.google.com'', path = ''/anything'',
              params = [], query = [], fragment = []\<rparr>"
  have n: "netloc ?p \<noteq> []" by simp
  have e: "detect_character_substitution (lower (netloc ?p)) = 1" by code_simp
  have g: "''google.com'' \<in> set legitimate_domains" by code_simp
  from field_parsed(13)[OF parse_awww n, of chk] g show ?thesis unfolding e by blast
qed

text \<open>The same, for every check of a bracketed host.\<close>

theorem dot_suffixed_variant_flagged_witness:
  "\<forall>chk. ''google.com'' \<in> set legitimate_domains
   \<and> field (extract_features chk (PyStr ''https://awww.google.com/anything''))
        ''has_character_substitution'' = Some 1"
  using dot_suffixed_variant_flagged by blast

text \<open>
  Claim C3 (the veto across the whole battery), as the specification states it: for a
  URL that parses and whose host passes the legitimacy check, every detector returns 0,
  among them \<open>has_suspicious_tld\<close>, \<open>is_url_shortener\<close>, \<open>excessive_subdomains\<close>
  and \<open>has_ip\<close>.

  Four detectors consult the check and return 0: \<open>has_brand_spoofing\<close>,
  \<open>has_character_substitution\<close>, \<open>has_suspicious_keywords\<close> and
  \<open>suspicious_keyword_combo\<close>. \<open>has_suspicious_tld\<close> and \<open>has_ip\<close> do not consult it
  and are 0 all the same, by the last character of the host. \<^verbatim>\<open>_is_url_shortener\<close> and
  \<^verbatim>\<open>_has_excessive_subdomains\<close> do not consult it either, and are not 0: \<^verbatim>\<open>t.co\<close> is
  in the registry and in the set of shorteners.
\<close>

theorem legitimacy_veto:
  assumes p: "urlparse chk url = Inr p" and n: "netloc p \<noteq> []"
    and l: "is_legitimate_domain (lower (netloc p)) \<noteq> 0"
  shows "field (extract_features chk (PyStr url)) ''has_brand_spoofing'' = Some 0
       \<and> field (extract_features chk (PyStr url)) ''has_character_substitution'' = Some 0
       \<and> field (extract_features chk (PyStr url)) ''has_suspicious_keywords'' = Some 0
       \<and> field (extract_features chk (PyStr url)) ''suspicious_keyword_combo'' = Some 0
       \<and> field (extract_features chk (PyStr url)) ''has_suspicious_tld'' = Some 0
       \<and> field (extract_features chk (PyStr url)) ''has_ip'' = Some 0"
  using l legitimate_no_suspicious_tld[OF l] legitimate_no_ip[OF l]
  by (simp add: field_parsed[OF p n] detect_brand_spoofing_def
        detect_character_substitution_def suspicious_keywords_value_def
        detect_suspicious_keyword_combinations_def)

text \<open>The six fields at \<^verbatim>\<open>https://google.com/verify\<close>.\<close>

theorem legitimacy_veto_witness:
  "\<forall>chk. is_legitimate_domain (lower ''google.com'') \<noteq> 0
       \<and> field (extract_features chk (PyStr ''https://google.com/verify'')) ''has_brand_spoofing'' = Some 0
       \<and> field (extract_features chk (PyStr ''https://google.com/verify'')) ''has_character_substitution'' = Some 0
       \<and> field (extract_features chk (PyStr ''https://google.com/verify'')) ''has_suspicious_keywords'' = Some 0
       \<and> field (extract_features chk (PyStr ''https://google.com/verify'')) ''suspicious_keyword_combo'' = Some 0
       \<and> field (extract_features chk (PyStr ''https://google.com/verify'')) ''has_suspicious_tld'' = Some 0
       \<and> field (extract_features chk (PyStr ''https://google.com/verify'')) ''has_ip'' = Some 0"
  (is "\<forall>chk. ?P chk")
proof (rule allI)
  fix chk :: "string \<Rightarrow> bool"
  let ?p = "\<lparr>scheme = ''https'', netloc = ''google.com'', path = ''/verify'',
              params = [], query = [], fragment = []\<rparr>"
  have n: "netloc ?p \<noteq> []" by simp
  have l: "is_legitimate_domain (lower (netloc ?p)) \<noteq> 0" by code_simp
  have l': "is_legitimate_domain (lower ''google.com'') \<noteq> 0" by code_simp
  from legitimacy_veto[OF parse_google_verify n l, of chk] l' show "?P chk" by blast
qed

text \<open>The claim as stated fails at \<^verbatim>\<open>https://t.co/x\<close>: the URL parses, its host is
  legitimate, and \<open>is_url_shortener\<close> is 1.\<close>

theorem legitimacy_veto_counterexample:
  "\<forall>chk. urlparse chk ''https://t.co/x''
            = Inr \<lparr>scheme = ''https'', netloc = ''t.co'', path = ''/x'',
                    params = [], query = [], fragment = []\<rparr>
        \<and> is_legitimate_domain (lower ''t.co'') = 1
        \<and> field (extract_features chk (PyStr ''https://t.co/x'')) ''is_url_shortener'' = Some 1"
  (is "\<forall>chk. ?P chk")
proof (rule allI)
  fix chk :: "string \<Rightarrow> bool"
  let ?p = "\<lparr>scheme = ''https'', netloc = ''t.co'', path = ''/x'',
              params = [], query = [], fragment = []\<rparr>"
  have n: "netloc ?p \<noteq> []" by simp
  have l: "is_legitimate_domain (lower ''t.co'') = 1" by code_simp
  have e: "is_url_shortener (lower (netloc ?p)) = 1" by code_simp
  have f: "field (extract_features chk (PyStr ''https://t.co/x'')) ''is_url_shortener'' = Some 1"
    using field_parsed(15)[OF parse_tco n, of chk] unfolding e .
  from parse_tco[of chk] l f show "?P chk" by blast
qed

text \<open>A legitimate host of six labels is flagged by \<^verbatim>\<open>_has_excessive_subdomains\<close>.\<close>

lemma excessive_subdomains_not_vetoed:
  "is_legitimate_domain ''a.b.c.d.google.com'' = 1
   \<and> has_excessive_subdomains ''a.b.c.d.google.com'' = 1"
  by code_simp

text \<open>
  Claim C5 (the suspicious-keyword detector), as the specification states it: for a URL
  that parses and whose host fails the legitimacy check, \<open>has_suspicious_keywords\<close> is
  1 exactly when (a) a domain-level keyword occurs in the host, or (b) a path-level
  keyword occurs in the path component of the URL and one of three signals holds (a
  suspicious top-level domain, an IP host, an \<^verbatim>\<open>@\<close> in the URL); for a legitimate host
  it is 0.

  The Python is not handed the path component. It searches all that follows the host in
  the lower-cased URL: the path, and the query and the fragment with it. The contract
  holds with that text in the place of the path component, for a URL in which the host
  occurs exactly once, at position \<open>i\<close>; the field is 0 or 1, and 0 for a legitimate
  host. A URL that repeats its host is left out of the contract.
\<close>

theorem suspicious_keywords_contract:
  assumes p: "urlparse chk url = Inr p" and n: "netloc p \<noteq> []"
  shows "(is_legitimate_domain (lower (netloc p)) \<noteq> 0 \<longrightarrow>
            field (extract_features chk (PyStr url)) ''has_suspicious_keywords'' = Some 0)
       \<and> (is_legitimate_domain (lower (netloc p)) = 0
            \<and> positions (lower (netloc p)) (lower url) = [i] \<longrightarrow>
            (field (extract_features chk (PyStr url)) ''has_suspicious_keywords'' = Some 1
             \<longleftrightarrow>
               (\<exists>keyword \<in> set [''verify'', ''suspended'', ''locked'', ''urgent'', ''alert'',
                                  ''warning'', ''confirm'', ''validate'', ''fake'', ''deal''].
                   str_in keyword (lower (netloc p)))
               \<or> ((\<exists>keyword \<in> set [''suspend'', ''locked'', ''urgent'', ''immediate''].
                      str_in keyword (drop (i + length (netloc p)) (lower url)))
                  \<and> (detect_suspicious_tld (lower (netloc p)) \<noteq> 0
                     \<or> has_ip_address (lower (netloc p)) \<noteq> 0
                     \<or> CHR ''@'' \<in> set url))))
       \<and> (field (extract_features chk (PyStr url)) ''has_suspicious_keywords'' = Some 1
          \<or> field (extract_features chk (PyStr url)) ''has_suspicious_keywords'' = Some 0)"
proof -
  let ?h = "lower (netloc p)" and ?f = "lower url"
  let ?v = "suspicious_keywords_value ?f ?h"
  from n have h: "?h \<noteq> []" by (simp add: lower_Nil_iff)
  have len: "length ?h = length (netloc p)" by (simp add: lower_def)
  have f: "field (extract_features chk (PyStr url)) ''has_suspicious_keywords'' = Some ?v"
    by (rule field_parsed(14)[OF p n])
  have A: "is_legitimate_domain ?h \<noteq> 0 \<longrightarrow> ?v = 0"
    by (simp add: suspicious_keywords_value_def)
  have C: "?v = 1 \<or> ?v = 0"
    by (simp add: suspicious_keywords_value_def)
  have B: "is_legitimate_domain ?h = 0 \<and> positions ?h ?f = [i] \<longrightarrow>
            (?v = 1 \<longleftrightarrow>
               (\<exists>keyword \<in> set [''verify'', ''suspended'', ''locked'', ''urgent'', ''alert'',
                                  ''warning'', ''confirm'', ''validate'', ''fake'', ''deal''].
                   str_in keyword ?h)
               \<or> ((\<exists>keyword \<in> set [''suspend'', ''locked'', ''urgent'', ''immediate''].
                      str_in keyword (drop (i + length (netloc p)) ?f))
                  \<and> (detect_suspicious_tld ?h \<noteq> 0
                     \<or> has_ip_address ?h \<noteq> 0
                     \<or> CHR ''@'' \<in> set url)))"
  proof (intro impI)
    assume a: "is_legitimate_domain ?h = 0 \<and> positions ?h ?f = [i]"
    with after_host_once[OF h, of ?f i] len
    have ah: "after_host ?f ?h = drop (i + length (netloc p)) ?f" by simp
    from a show "?v = 1 \<longleftrightarrow>
               (\<exists>keyword \<in> set [''verify'', ''suspended'', ''locked'', ''urgent'', ''alert'',
                                  ''warning'', ''confirm'', ''validate'', ''fake'', ''deal''].
                   str_in keyword ?h)
               \<or> ((\<exists>keyword \<in> set [''suspend'', ''locked'', ''urgent'', ''immediate''].
                      str_in keyword (drop (i + length (netloc p)) ?f))
                  \<and> (detect_suspicious_tld ?h \<noteq> 0
                     \<or> has_ip_address ?h \<noteq> 0
                     \<or> CHR ''@'' \<in> set url))"
      unfolding suspicious_keywords_value_def ah at_in_lower
        domain_suspicious_keywords_def path_suspicious_keywords_def list_ex_iff
      by (simp del: str_in.simps)
  qed
  from A B C show ?thesis unfolding f by simp
qed

text \<open>A URL with an IP host and a keyword in its query, and a legitimate host.\<close>

theorem suspicious_keywords_contract_witness:
  "\<forall>chk. is_legitimate_domain (lower ''1.2.3.4'') = 0
       \<and> positions (lower ''1.2.3.4'') (lower ''http://1.2.3.4/?q=urgent'') = [7]
       \<and> drop (7 + length ''1.2.3.4'') (lower ''http://1.2.3.4/?q=urgent'') = ''/?q=urgent''
       \<and> str_in ''urgent'' ''/?q=urgent''
       \<and> has_ip_address (lower ''1.2.3.4'') \<noteq> 0
       \<and> field (extract_features chk (PyStr ''http://1.2.3.4/?q=urgent''))
            ''has_suspicious_keywords'' = Some 1
       \<and> is_legitimate_domain (lower ''google.com'') \<noteq> 0
       \<and> field (extract_features chk (PyStr ''https://google.com/verify''))
            ''has_suspicious_keywords'' = Some 0"
  (is "\<forall>chk. ?P chk")
proof (rule allI)
  fix chk :: "string \<Rightarrow> bool"
  let ?u = "''http://1.2.3.4/?q=urgent''"
  let ?p = "\<lparr>scheme = ''http'', netloc = ''1.2.3.4'', path = ''/'',
              params = [], query = ''q=urgent'', fragment = []\<rparr>"
  let ?q = "\<lparr>scheme = ''https'', netloc = ''google.com'', path = ''/verify'',
              params = [], query = [], fragment = []\<rparr>"
  have n: "netloc ?p \<noteq> []" "netloc ?q \<noteq> []" by simp_all
  have a: "is_legitimate_domain (lower (netloc ?p)) = 0" by code_simp
  have b: "positions (lower (netloc ?p)) (lower ?u) = [7]" by code_simp
  have c: "has_ip_address (lower (netloc ?p)) \<noteq> 0" by code_simp
  have k: "\<exists>keyword \<in> set [''suspend'', ''locked'', ''urgent'', ''immediate''].
             str_in keyword (drop (7 + length (netloc ?p)) (lower ?u))"
    by code_simp
  have g: "is_legitimate_domain (lower (netloc ?q)) \<noteq> 0" by code_simp
  have d1: "drop (7 + length ''1.2.3.4'') (lower ?u) = ''/?q=urgent''" by code_simp
  have d2: "str_in ''urgent'' ''/?q=urgent''" by code_simp
  from suspicious_keywords_contract[OF parse_ip_query n(1), of chk 7] a b c k
  have d: "field (extract_features chk (PyStr ?u)) ''has_suspicious_keywords'' = Some 1"
    by blast
  from suspicious_keywords_contract[OF parse_google_verify n(2), of chk] g
  have e: "field (extract_features chk (PyStr ''https://google.com/verify''))
            ''has_suspicious_keywords'' = Some 0"
    by blast
  have s: "netloc ?p = ''1.2.3.4''" "netloc ?q = ''google.com''" by simp_all
  from a b c d g e d1 d2 show "?P chk" unfolding s by blast
qed

text \<open>The claim as stated fails at \<^verbatim>\<open>http://1.2.3.4/?q=urgent\<close>: the host is not
  legitimate and holds no domain-level keyword, the path component \<^verbatim>\<open>/\<close> holds no
  path-level keyword, and the field is 1, for the keyword of the query.\<close>

theorem suspicious_keywords_contract_counterexample:
  "\<forall>chk. urlparse chk ''http://1.2.3.4/?q=urgent''
            = Inr \<lparr>scheme = ''http'', netloc = ''1.2.3.4'', path = ''/'',
                    params = [], query = ''q=urgent'', fragment = []\<rparr>
        \<and> is_legitimate_domain (lower ''1.2.3.4'') = 0
        \<and> \<not> list_ex (\<lambda>keyword. str_in keyword (lower ''1.2.3.4'')) domain_suspicious_keywords
        \<and> \<not> list_ex (\<lambda>keyword. str_in keyword ''/'') path_suspicious_keywords
        \<and> field (extract_features chk (PyStr ''http://1.2.3.4/?q=urgent''))
             ''has_suspicious_keywords'' = Some 1"
  (is "\<forall>chk. ?P chk")
proof (rule allI)
  fix chk :: "string \<Rightarrow> bool"
  let ?p = "\<lparr>scheme = ''http'', netloc = ''1.2.3.4'', path = ''/'',
              params = [], query = ''q=urgent'', fragment = []\<rparr>"
  have n: "netloc ?p \<noteq> []" by simp
  have a: "is_legitimate_domain (lower ''1.2.3.4'') = 0" by code_simp
  have b: "\<not> list_ex (\<lambda>keyword. str_in keyword (lower ''1.2.3.4'')) domain_suspicious_keywords"
    by code_simp
  have c: "\<not> list_ex (\<lambda>keyword. str_in keyword ''/'') path_suspicious_keywords"
    by code_simp
  have e: "suspicious_keywords_value (lower ''http://1.2.3.4/?q=urgent'') (lower (netloc ?p)) = 1"
    by code_simp
  have d: "field (extract_features chk (PyStr ''http://1.2.3.4/?q=urgent''))
             ''has_suspicious_keywords'' = Some 1"
    using field_parsed(14)[OF parse_ip_query n, of chk] unfolding e .
  from parse_ip_query[of chk] a b c d show "?P chk" by blast
qed

text \<open>
  Claim C10 (an explicit port defeats the veto): for every URL whose authority carries
  an explicit port, that is, ends with a colon and the digits of the port, the
  legitimacy check compares host and port together with the registry and never
  matches, so that no detector is vetoed; \<^verbatim>\<open>https://google.com:443/verify\<close> has
  \<open>suspicious_keyword_combo = 1\<close> and \<^verbatim>\<open>https://google.com/verify\<close> has
  \<open>suspicious_keyword_combo = 0\<close>.
\<close>

theorem explicit_port_defeats_veto:
  "(\<forall>url p h port. urlparse chk url = Inr p \<and> netloc p = h @ '':'' @ port
        \<and> list_all (\<lambda>c. c \<in> set ''0123456789'') port
      \<longrightarrow> is_legitimate_domain (lower (netloc p)) = 0)
   \<and> field (extract_features chk (PyStr ''https://google.com:443/verify''))
        ''suspicious_keyword_combo'' = Some 1
   \<and> field (extract_features chk (PyStr ''https://google.com/verify''))
        ''suspicious_keyword_combo'' = Some 0"
proof (intro conjI allI impI)
  fix url p h port
  assume a: "urlparse chk url = Inr p \<and> netloc p = h @ '':'' @ port
        \<and> list_all (\<lambda>c. c \<in> set ''0123456789'') port"
  let ?h = "lower (netloc p)"
  from a have l: "last ?h \<in> set ''0123456789:''" using explicit_port_last by simp
  from a have ne: "?h \<noteq> []" by (simp add: lower_Nil_iff)
  from l have dot: "last ?h \<noteq> CHR ''.''" by auto
  show "is_legitimate_domain ?h = 0"
  proof (rule ccontr)
    assume "is_legitimate_domain ?h \<noteq> 0"
    from is_legitimate_domain_last[OF this ne dot] l show False by auto
  qed
next
  let ?p = "\<lparr>scheme = ''https'', netloc = ''google.com:443'', path = ''/verify'',
              params = [], query = [], fragment = []\<rparr>"
  have n: "netloc ?p \<noteq> []" by simp
  have e: "detect_suspicious_keyword_combinations (lower ''https://google.com:443/verify'')
             (lower (netloc ?p)) = 1" by code_simp
  from field_parsed(17)[OF parse_google_port n, of chk]
  show "field (extract_features chk (PyStr ''https://google.com:443/verify''))
        ''suspicious_keyword_combo'' = Some 1" unfolding e .
next
  let ?p = "\<lparr>scheme = ''https'', netloc = ''google.com'', path = ''/verify'',
              params = [], query = [], fragment = []\<rparr>"
  have n: "netloc ?p \<noteq> []" by simp
  have e: "detect_suspicious_keyword_combinations (lower ''https://google.com/verify'')
             (lower (netloc ?p)) = 0" by code_simp
  from field_parsed(17)[OF parse_google_verify n, of chk]
  show "field (extract_features chk (PyStr ''https://google.com/verify''))
        ''suspicious_keyword_combo'' = Some 0" unfolding e .
qed

text \<open>The general part at \<^verbatim>\<open>google.com:443\<close>, and the two values.\<close>

theorem explicit_port_defeats_veto_witness:
  "\<forall>chk. is_legitimate_domain (lower ''google.com:443'') = 0
   \<and> field (extract_features chk (PyStr ''https://google.com:443/verify''))
        ''suspicious_keyword_combo'' = Some 1
   \<and> field (extract_features chk (PyStr ''https://google.com/verify''))
        ''suspicious_keyword_combo'' = Some 0"
  (is "\<forall>chk. ?P chk")
proof (rule allI)
  fix chk :: "string \<Rightarrow> bool"
  note t = explicit_port_defeats_veto[of chk]
  have s: "netloc \<lparr>scheme = ''https'', netloc = ''google.com:443'', path = ''/verify'',
              params = [], query = [], fragment = []\<rparr> = ''google.com'' @ '':'' @ ''443''"
    by simp
  have d: "list_all (\<lambda>c. c \<in> set ''0123456789'') ''443''" by simp
  from t parse_google_port[of chk] s d
  have a: "is_legitimate_domain (lower (netloc \<lparr>scheme = ''https'', netloc = ''google.com:443'',
              path = ''/verify'', params = [], query = [], fragment = []\<rparr>)) = 0"
    by blast
  then have a': "is_legitimate_domain (lower ''google.com:443'') = 0" by simp
  from t a' show "?P chk" by blast
qed

end
